theory Spec2Isabelle
  imports
    Complex_Main
    "HOL-Library.Char_ord"
    "HOL-Library.List_Lexorder"
    "HOL-Library.Product_Lexorder"
begin

section \<open>Strings\<close>

text \<open>
  Python strings are modelled as \<^typ>\<open>string\<close>; a character is read as the code point
  of the same number, so the alphabet is the first 256 code points (Latin-1).
  The character classes below are Python's on that range: \<^verbatim>\<open>str.isspace\<close> (which is
  also what \<^verbatim>\<open>str.strip\<close>, \<^verbatim>\<open>str.split\<close> and the pattern \<^verbatim>\<open>\s\<close> use), the decimal
  digits of \<^verbatim>\<open>\d\<close>, the word characters of \<^verbatim>\<open>\b\<close>, and \<^verbatim>\<open>str.lower\<close>.
\<close>

definition newline :: char where
  "newline = CHR 0x0A"

definition is_space :: "char \<Rightarrow> bool" where
  "is_space c = (c \<in> set [CHR 0x09, CHR 0x0A, CHR 0x0B, CHR 0x0C, CHR 0x0D,
      CHR 0x1C, CHR 0x1D, CHR 0x1E, CHR 0x1F, CHR 0x20, CHR 0x85, CHR 0xA0])"

definition is_digit :: "char \<Rightarrow> bool" where
  "is_digit c = (c \<in> set ''0123456789'')"

definition is_word :: "char \<Rightarrow> bool" where
  "is_word c = (let n = (of_char c :: nat) in
     (48 \<le> n \<and> n \<le> 57) \<or> (65 \<le> n \<and> n \<le> 90) \<or> n = 95 \<or> (97 \<le> n \<and> n \<le> 122)
     \<or> n = 170 \<or> n = 178 \<or> n = 179 \<or> n = 181 \<or> n = 185 \<or> n = 186
     \<or> n = 188 \<or> n = 189 \<or> n = 190
     \<or> (192 \<le> n \<and> n \<noteq> 215 \<and> n \<noteq> 247))"

definition lower_char :: "char \<Rightarrow> char" where
  "lower_char c = (let n = (of_char c :: nat) in
     if (65 \<le> n \<and> n \<le> 90) \<or> (192 \<le> n \<and> n \<le> 222 \<and> n \<noteq> 215)
     then char_of (n + 32) else c)"

definition lower :: "string \<Rightarrow> string" where
  "lower s = map lower_char s"

definition strip :: "string \<Rightarrow> string" where
  "strip s = rev (dropWhile is_space (rev (dropWhile is_space s)))"

text \<open>\<^verbatim>\<open>s.split()\<close>: the maximal runs of non-whitespace characters.\<close>

fun split_acc :: "string \<Rightarrow> string \<Rightarrow> string list" where
  "split_acc w [] = (if w = [] then [] else [rev w])"
| "split_acc w (c # cs) =
     (if is_space c then (if w = [] then split_acc [] cs else rev w # split_acc [] cs)
      else split_acc (c # w) cs)"

definition split :: "string \<Rightarrow> string list" where
  "split s = split_acc [] s"

text \<open>\<^verbatim>\<open>re.sub(r'\s', '', s)\<close> and \<^verbatim>\<open>re.sub(r'\s+', ' ', s)\<close>.\<close>

definition remove_ws :: "string \<Rightarrow> string" where
  "remove_ws s = filter (\<lambda>c. \<not> is_space c) s"

fun collapse_run :: "bool \<Rightarrow> string \<Rightarrow> string" where
  "collapse_run in_run [] = []"
| "collapse_run in_run (c # cs) =
     (if is_space c then (if in_run then collapse_run True cs else CHR '' '' # collapse_run True cs)
      else c # collapse_run False cs)"

definition collapse_ws :: "string \<Rightarrow> string" where
  "collapse_ws s = collapse_run False s"

text \<open>\<^verbatim>\<open>a in s\<close> for strings: \<open>a\<close> occurs in \<open>s\<close> as a contiguous run.\<close>

fun is_prefix :: "string \<Rightarrow> string \<Rightarrow> bool" where
  "is_prefix [] s = True"
| "is_prefix (a # as) [] = False"
| "is_prefix (a # as) (c # cs) = (a = c \<and> is_prefix as cs)"

fun contains :: "string \<Rightarrow> string \<Rightarrow> bool" where
  "contains a [] = is_prefix a []"
| "contains a (c # cs) = (is_prefix a (c # cs) \<or> contains a cs)"

text \<open>\<^verbatim>\<open>str(n)\<close> for an integer: its decimal digits, with a leading minus sign.\<close>

definition digit_char :: "nat \<Rightarrow> char" where
  "digit_char d = ''0123456789'' ! d"

fun str_nat :: "nat \<Rightarrow> string" where
  "str_nat n = (if n < 10 then [digit_char n] else str_nat (n div 10) @ [digit_char (n mod 10)])"

declare str_nat.simps [simp del]

definition str_int :: "int \<Rightarrow> string" where
  "str_int i = (if i < 0 then CHR ''-'' # str_nat (nat (- i)) else str_nat (nat i))"

section \<open>Regular expressions\<close>

text \<open>
  The patterns of the program use literals, character classes, \<^verbatim>\<open>^\<close>, \<^verbatim>\<open>$\<close>,
  \<^verbatim>\<open>\b\<close>, alternation, grouping and the repetitions \<^verbatim>\<open>*\<close>, \<^verbatim>\<open>+\<close>, \<^verbatim>\<open>?\<close>,
  \<^verbatim>\<open>{m,n}\<close>, and the program only asks whether a match exists. A position in the
  subject is the character before it (if any) and the rest of the subject;
  \<open>ends r q\<close> lists the positions where a match of \<open>r\<close> that starts at \<open>q\<close> can end.
\<close>

datatype rx =
    Cls "char \<Rightarrow> bool"
  | Bol
  | Eol
  | Wb
  | Eps
  | Cat rx rx
  | Alt rx rx
  | Star rx

type_synonym pos = "char option \<times> string"

primrec star :: "nat \<Rightarrow> (pos \<Rightarrow> pos list) \<Rightarrow> pos \<Rightarrow> pos list" where
  "star 0 f q = [q]"
| "star (Suc n) f q =
     q # concat (map (star n f) (filter (\<lambda>q'. length (snd q') < length (snd q)) (f q)))"

definition word_before :: "pos \<Rightarrow> bool" where
  "word_before q = (case fst q of None \<Rightarrow> False | Some c \<Rightarrow> is_word c)"

definition word_after :: "pos \<Rightarrow> bool" where
  "word_after q = (case snd q of [] \<Rightarrow> False | c # cs \<Rightarrow> is_word c)"

primrec ends :: "rx \<Rightarrow> pos \<Rightarrow> pos list" where
  "ends (Cls p) q = (case snd q of [] \<Rightarrow> [] | c # cs \<Rightarrow> if p c then [(Some c, cs)] else [])"
| "ends Bol q = (if fst q = None then [q] else [])"
| "ends Eol q = (if snd q = [] \<or> snd q = [newline] then [q] else [])"
| "ends Wb q = (if word_before q \<noteq> word_after q then [q] else [])"
| "ends Eps q = [q]"
| "ends (Cat a b) q = concat (map (ends b) (ends a q))"
| "ends (Alt a b) q = ends a q @ ends b q"
| "ends (Star a) q = star (length (snd q)) (ends a) q"

text \<open>\<^verbatim>\<open>re.match\<close> tries the start of the subject only, \<^verbatim>\<open>re.search\<close> every position.\<close>

fun positions :: "char option \<Rightarrow> string \<Rightarrow> pos list" where
  "positions p [] = [(p, [])]"
| "positions p (c # cs) = (p, c # cs) # positions (Some c) cs"

definition re_match :: "rx \<Rightarrow> string \<Rightarrow> bool" where
  "re_match r s = (ends r (None, s) \<noteq> [])"

definition re_search :: "rx \<Rightarrow> string \<Rightarrow> bool" where
  "re_search r s = list_ex (\<lambda>q. ends r q \<noteq> []) (positions None s)"

subsection \<open>Pattern syntax\<close>

definition chr :: "char \<Rightarrow> rx" where
  "chr c = Cls (\<lambda>x. x = c)"

definition one_of :: "string \<Rightarrow> rx" where
  "one_of cs = Cls (\<lambda>x. x \<in> set cs)"

definition lit :: "string \<Rightarrow> rx" where
  "lit s = foldr (\<lambda>c r. Cat (chr c) r) s Eps"

definition digit :: rx where
  "digit = Cls is_digit"

definition space :: rx where
  "space = Cls is_space"

definition any_char :: rx where
  "any_char = Cls (\<lambda>x. x \<noteq> newline)"

definition seq :: "rx list \<Rightarrow> rx" where
  "seq rs = foldr Cat rs Eps"

definition alts :: "string list \<Rightarrow> rx" where
  "alts ws = foldr (\<lambda>w r. Alt (lit w) r) (butlast ws) (lit (last ws))"

definition plus :: "rx \<Rightarrow> rx" where
  "plus r = Cat r (Star r)"

definition opt :: "rx \<Rightarrow> rx" where
  "opt r = Alt r Eps"

primrec times :: "nat \<Rightarrow> rx \<Rightarrow> rx" where
  "times 0 r = Eps"
| "times (Suc n) r = Cat r (times n r)"

primrec upto :: "nat \<Rightarrow> rx \<Rightarrow> rx" where
  "upto 0 r = Eps"
| "upto (Suc n) r = Alt (Cat r (upto n r)) Eps"

definition rep :: "nat \<Rightarrow> nat \<Rightarrow> rx \<Rightarrow> rx" where
  "rep m n r = Cat (times m r) (upto (n - m) r)"

definition at_least :: "nat \<Rightarrow> rx \<Rightarrow> rx" where
  "at_least m r = Cat (times m r) (Star r)"

section \<open>Fragments\<close>

text \<open>
  A fragment is a Python dict read with \<^verbatim>\<open>.get\<close>: each of the four keys may be absent.
  \<^verbatim>\<open>e.get(k, d)\<close> gives the default \<open>d\<close> for an absent key, \<^verbatim>\<open>e.get(k)\<close> gives \<^verbatim>\<open>None\<close>.
\<close>

record fragment =
  f_text :: "string option"
  f_page :: "int option"
  f_font_size :: "rat option"
  f_bold :: "bool option"

definition get_text :: "fragment \<Rightarrow> string" where
  "get_text e = (case f_text e of None \<Rightarrow> [] | Some t \<Rightarrow> t)"

definition get_page :: "fragment \<Rightarrow> int" where
  "get_page e = (case f_page e of None \<Rightarrow> 1 | Some p \<Rightarrow> p)"

definition get_font_size :: "fragment \<Rightarrow> rat" where
  "get_font_size e = (case f_font_size e of None \<Rightarrow> 12 | Some f \<Rightarrow> f)"

definition get_bold :: "fragment \<Rightarrow> bool" where
  "get_bold e = (case f_bold e of None \<Rightarrow> False | Some b \<Rightarrow> b)"

text \<open>The truth value of a dict: it has a key.\<close>

definition truthy :: "fragment \<Rightarrow> bool" where
  "truthy e = (f_text e \<noteq> None \<or> f_page e \<noteq> None \<or> f_font_size e \<noteq> None \<or> f_bold e \<noteq> None)"

section \<open>The parser's state\<close>

record outline_entry =
  e_level :: string
  e_text :: string
  e_page :: int

record content_item =
  c_text :: string
  c_page :: int
  c_type :: string

record font_stat =
  fs_count :: nat
  fs_total_chars :: nat
  fs_pages :: "int set"

record parser =
  title :: "fragment option"
  title_page :: "int option"
  outline :: "outline_entry list"
  content :: "content_item list"
  font_analysis :: "(rat \<times> nat \<times> nat \<times> nat) list"
  paragraph_font_size :: rat
  in_toc_section :: bool
  seen_headers :: "string set"
  table_elements :: "nat set"
  toc_patterns :: "rx list"

record result =
  r_title :: string
  r_outline :: "outline_entry list"

datatype error = TypeError

text \<open>
  \<^verbatim>\<open>__init__\<close> assigns every field: whatever the state was, after it the state is
  that of a new instance.
\<close>

definition PDFTitleHeaderParser :: parser where
  "PDFTitleHeaderParser = \<lparr>
     title = None,
     title_page = None,
     outline = [],
     content = [],
     font_analysis = [],
     paragraph_font_size = 12,
     in_toc_section = False,
     seen_headers = {},
     table_elements = {},
     toc_patterns = [
       seq [lit ''table'', plus space, lit ''of'', plus space, lit ''contents''],
       lit ''contents'',
       lit ''index'',
       seq [lit ''table'', plus space, lit ''des'', plus space,
            lit (''mati'' @ [CHR 0xC3, CHR 0xA8] @ ''res'')],
       lit ''sommaire'']\<rparr>"

definition init :: "parser \<Rightarrow> parser" where
  "init s = PDFTitleHeaderParser"

section \<open>Table region detection\<close>

definition table_indicators :: "rx list" where
  "table_indicators = [
     seq [Bol, alts [''version'', ''date'', ''remarks'', ''identifier'', ''reference'',
                     ''days'', ''syllabus''], Eol],
     seq [Bol, plus digit, chr CHR ''.'', plus digit, Eol],
     seq [Bol, rep 1 2 digit, one_of ''/-'', rep 1 2 digit, one_of ''/-'', rep 2 4 digit, Eol],
     seq [Bol, opt (chr CHR ''v''), plus digit, chr CHR ''.'', plus digit,
          opt (seq [chr CHR ''.'', plus digit]), Eol],
     seq [Bol, lit ''rev'', plus space, plus digit, Eol],
     seq [Bol, lit ''revision'', plus space, plus digit, Eol]]"

definition is_in_tabular_structure :: "fragment \<Rightarrow> fragment list \<Rightarrow> nat \<Rightarrow> bool" where
  "is_in_tabular_structure element all_elements element_idx =
     (let page = get_page element;
          font_size = get_font_size element;
          same_page_elements =
            filter (\<lambda>(i, e). f_page e = Some page \<and> i \<le> element_idx + 10 \<and> element_idx \<le> i + 10)
              (enumerate 0 all_elements);
          table_header_count =
            length (filter (\<lambda>(i, elem).
              list_ex (\<lambda>header. contains header (lower (strip (get_text elem))))
                [''version'', ''date'', ''remarks'']) same_page_elements);
          short_entries_count =
            length (filter (\<lambda>(i, elem).
              length (split (lower (strip (get_text elem)))) \<le> 3 \<and> get_font_size elem = font_size)
              same_page_elements)
      in table_header_count \<ge> 2 \<and> short_entries_count \<ge> 3)"

definition has_tabular_neighbors :: "fragment \<Rightarrow> fragment list \<Rightarrow> nat \<Rightarrow> bool" where
  "has_tabular_neighbors element all_elements element_idx =
     (let page = get_page element in
      list_ex (\<lambda>i.
          \<not> (i = element_idx \<or> f_page (all_elements ! i) \<noteq> Some page) \<and>
          re_match (seq [Bol, alts [''version'', ''date'', ''remarks'', ''identifier'', ''reference''], Eol])
            (lower (strip (get_text (all_elements ! i)))))
        [element_idx - 5 ..< min (length all_elements) (element_idx + 6)])"

definition is_table_element :: "fragment \<Rightarrow> fragment list \<Rightarrow> nat \<Rightarrow> bool" where
  "is_table_element element all_elements element_idx =
     (let text = lower (strip (get_text element)) in
      if list_ex (\<lambda>pattern. re_match pattern text) table_indicators then True
      else is_in_tabular_structure element all_elements element_idx
           \<or> has_tabular_neighbors element all_elements element_idx)"

text \<open>
  \<^verbatim>\<open>page_elements\<close> is a dict from pages to lists of indexed fragments, in the order the
  pages are first met.
\<close>

fun page_append ::
  "(int \<times> (nat \<times> fragment) list) list \<Rightarrow> int \<Rightarrow> nat \<times> fragment \<Rightarrow> (int \<times> (nat \<times> fragment) list) list"
where
  "page_append [] p x = [(p, [x])]"
| "page_append ((p', xs) # d) p x =
     (if p' = p then (p', xs @ [x]) # d else (p', xs) # page_append d p x)"

definition detect_table_elements :: "parser \<Rightarrow> fragment list \<Rightarrow> parser" where
  "detect_table_elements s elements =
     (let page_elements =
            foldl (\<lambda>d (i, element). page_append d (get_page element) (i, element)) []
              (enumerate 0 elements)
      in foldl (\<lambda>s page_elems.
           foldl (\<lambda>s (idx, element).
               if is_table_element element elements idx
               then s\<lparr>table_elements := insert idx (table_elements s)\<rparr> else s)
             s (sort_key fst page_elems))
         s (map snd page_elements))"

section \<open>Boilerplate, version and separator filters\<close>

definition is_header_footer :: "fragment \<Rightarrow> bool" where
  "is_header_footer element =
     (let text = lower (strip (get_text element));
          patterns = [
            seq [lit ''page'', plus space, plus digit],
            seq [Bol, plus digit, Eol],
            seq [lit ''chapter'', plus space, plus digit],
            seq [lit [CHR 0xC2, CHR 0xA9], Star space, times 4 digit],
            lit ''confidential'',
            seq [lit ''document'', plus space, lit ''id''],
            seq [Wb, rep 1 2 digit, one_of ''/-'', rep 1 2 digit, one_of ''/-'', rep 2 4 digit, Wb]]
      in list_ex (\<lambda>p. re_search p text) patterns
         \<or> (length text \<le> 10
            \<and> re_match (seq [Bol, plus (Cls (\<lambda>c. is_digit c \<or> is_space c \<or> c \<in> set ''-/.'')), Eol]) text))"

definition is_version_or_date :: "fragment \<Rightarrow> bool" where
  "is_version_or_date element =
     (let text = lower (strip (get_text element));
          patterns = [
            seq [Bol, chr CHR ''v'', plus digit, chr CHR ''.'', plus digit],
            seq [Bol, lit ''version'', plus space, plus digit],
            seq [Bol, lit ''rev'', plus space, plus digit],
            seq [Bol, plus digit, chr CHR ''.'', plus digit, chr CHR ''.'', plus digit],
            seq [Bol, lit ''date:''],
            seq [Bol, lit ''created:''],
            seq [Bol, lit ''updated:'']]
      in list_ex (\<lambda>p. re_match p text) patterns)"

definition is_dots_or_dashes :: "fragment \<Rightarrow> bool" where
  "is_dots_or_dashes element =
     (let text = remove_ws (strip (get_text element))
      in length text \<ge> 3 \<and> re_match (seq [Bol, at_least 3 (one_of ''.-_=*~''), Eol]) text)"

definition is_table_of_contents_header :: "parser \<Rightarrow> fragment \<Rightarrow> bool" where
  "is_table_of_contents_header s element =
     (let text = lower (strip (get_text element))
      in list_ex (\<lambda>p. re_search p text) (toc_patterns s))"

definition is_toc_content :: "fragment \<Rightarrow> bool" where
  "is_toc_content element =
     (let text = strip (get_text element);
          patterns = [
            seq [Bol, plus digit, opt (chr CHR ''.''), Star space, Eol],
            seq [Bol, plus digit, chr CHR ''.'', plus digit],
            lit ''.....'',
            seq [Bol, plus any_char, plus space, plus digit, Eol]]
      in list_ex (\<lambda>p. re_search p text) patterns)"

text \<open>The three filters of the font scan, of title selection and of the assembly pass.\<close>

definition excluded :: "fragment \<Rightarrow> bool" where
  "excluded e = (is_header_footer e \<or> is_version_or_date e \<or> is_dots_or_dashes e)"

section \<open>Font profiling\<close>

text \<open>
  \<^verbatim>\<open>font_data\<close> is a \<^verbatim>\<open>defaultdict\<close> keyed by font size, in the order the sizes are
  first met; an absent key starts from zero counts and no pages.
\<close>

fun font_add :: "(rat \<times> font_stat) list \<Rightarrow> rat \<Rightarrow> nat \<Rightarrow> int \<Rightarrow> (rat \<times> font_stat) list" where
  "font_add [] k n p = [(k, \<lparr>fs_count = 1, fs_total_chars = n, fs_pages = {p}\<rparr>)]"
| "font_add ((k', v) # d) k n p =
     (if k' = k
      then (k', \<lparr>fs_count = fs_count v + 1, fs_total_chars = fs_total_chars v + n,
                 fs_pages = insert p (fs_pages v)\<rparr>) # d
      else (k', v) # font_add d k n p)"

definition font_data_of :: "fragment list \<Rightarrow> (rat \<times> font_stat) list" where
  "font_data_of elements =
     foldl (\<lambda>font_data element.
         if is_header_footer element \<or> is_version_or_date element \<or> is_dots_or_dashes element
         then font_data
         else font_add font_data (get_font_size element)
                (length (strip (get_text element))) (get_page element))
       [] elements"

text \<open>
  \<^verbatim>\<open>list.sort(reverse=True)\<close> on values that Python can always compare: the stable
  sort of the reversed list, reversed.
\<close>

definition sort_reverse :: "('a :: linorder) list \<Rightarrow> 'a list" where
  "sort_reverse xs = rev (sort (rev xs))"

definition analyze_font_characteristics :: "parser \<Rightarrow> fragment list \<Rightarrow> parser" where
  "analyze_font_characteristics s elements =
     (let font_data = font_data_of elements;
          candidates = map (\<lambda>(k, v). (fs_total_chars v * card (fs_pages v), k)) font_data;
          s1 = (if candidates \<noteq> []
                then s\<lparr>paragraph_font_size := snd (hd (sort_reverse candidates))\<rparr> else s)
      in s1\<lparr>font_analysis :=
              map (\<lambda>(k, v). (k, fs_count v, fs_total_chars v, card (fs_pages v))) font_data\<rparr>)"

section \<open>Title selection and heading levels\<close>

definition is_paragraph_text :: "parser \<Rightarrow> fragment \<Rightarrow> bool" where
  "is_paragraph_text s element =
     (let font_size = get_font_size element;
          is_bold = get_bold element;
          text = strip (get_text element)
      in if font_size = paragraph_font_size s \<and> \<not> is_bold then True
         else if font_size = paragraph_font_size s \<and> is_bold
                 \<and> (newline \<in> set text \<or> length (split text) > 15) then True
         else False)"

text \<open>
  The candidates of the title are tuples \<^verbatim>\<open>(font_size, page, txt, e)\<close>; here the first
  three components are the key and the dict \<open>e\<close> comes with it.
\<close>

type_synonym candidate = "(rat \<times> int \<times> string) \<times> fragment"

definition title_candidates :: "parser \<Rightarrow> fragment list \<Rightarrow> candidate list" where
  "title_candidates s elements =
     map (\<lambda>e. ((get_font_size e, get_page e, strip (get_text e)), e))
       (filter (\<lambda>e.
          \<not> (is_header_footer e \<or> is_version_or_date e \<or> is_dots_or_dashes e \<or> is_paragraph_text s e)
          \<and> length (strip (get_text e)) \<ge> 3) elements)"

text \<open>
  \<^verbatim>\<open>candidates.sort(reverse=True)\<close> compares the tuples component by component, and so
  compares the dicts of two tuples whose first three components are equal, if the dicts are
  not equal; Python orders no two dicts and raises \<^verbatim>\<open>TypeError\<close>. Any sort has to compare
  such a pair, or two others of the same key, to place them: the sort raises exactly
  when the list has two tuples of the same key whose dicts differ.
\<close>

definition incomparable :: "candidate \<Rightarrow> candidate \<Rightarrow> bool" where
  "incomparable c d = (fst c = fst d \<and> snd c \<noteq> snd d)"

definition sort_candidates :: "candidate list \<Rightarrow> error + candidate list" where
  "sort_candidates cs =
     (if list_ex (\<lambda>c. list_ex (incomparable c) cs) cs then Inl TypeError
      else Inr (rev (sort_key fst (rev cs))))"

definition identify_title :: "parser \<Rightarrow> fragment list \<Rightarrow> error + fragment option" where
  "identify_title s elements =
     (let candidates = title_candidates s elements
      in if candidates = [] then Inr None
         else (case sort_candidates candidates of
                 Inl err \<Rightarrow> Inl err
               | Inr ordered \<Rightarrow> Inr (Some (snd (hd ordered)))))"

definition classify_header_level :: "parser \<Rightarrow> fragment \<Rightarrow> string option" where
  "classify_header_level s element =
     (if is_paragraph_text s element then None
      else
        let font_size = get_font_size element;
            is_bold = get_bold element;
            text = strip (get_text element);
            title_font_size =
              (case title s of
                 None \<Rightarrow> 16
               | Some t \<Rightarrow> if truthy t then (case f_font_size t of None \<Rightarrow> 16 | Some f \<Rightarrow> f) else 16)
        in if font_size \<ge> title_font_size then None
           else if font_size > paragraph_font_size s then Some ''H1''
           else if font_size = paragraph_font_size s \<and> is_bold \<and> length (split text) \<le> 10
           then Some ''H2''
           else None)"

definition extract_clean_title :: "fragment option \<Rightarrow> string" where
  "extract_clean_title title_element =
     (case title_element of
        None \<Rightarrow> ''Untitled Document''
      | Some t \<Rightarrow> if truthy t then collapse_ws (strip (get_text t)) else ''Untitled Document'')"

section \<open>Deduplication\<close>

definition normalized :: "string \<Rightarrow> string" where
  "normalized text = collapse_ws (lower (strip text))"

definition header_key :: "string \<Rightarrow> int \<Rightarrow> string" where
  "header_key text page = normalized text @ ''_'' @ str_int page"

definition should_include_header :: "parser \<Rightarrow> string \<Rightarrow> int \<Rightarrow> bool \<times> parser" where
  "should_include_header s text page =
     (if normalized text \<in> {''overview'', ''introduction'', ''summary''}
         \<and> normalized text \<in> seen_headers s
      then (False, s)
      else
        let s1 = (if normalized text \<in> {''overview'', ''introduction'', ''summary''}
                  then s\<lparr>seen_headers := insert (normalized text) (seen_headers s)\<rparr> else s);
            key = header_key text page
        in if key \<in> seen_headers s1 then (False, s1)
           else (True, s1\<lparr>seen_headers := insert key (seen_headers s1)\<rparr>))"

section \<open>The assembly pass\<close>

text \<open>
  \<^verbatim>\<open>if level and self.should_include_header(text, page): self.outline.append(...)\<close>,
  which the pass has twice; a level is \<^verbatim>\<open>None\<close>, \<^verbatim>\<open>"H1"\<close> or \<^verbatim>\<open>"H2"\<close>.
\<close>

definition append_header :: "parser \<Rightarrow> string option \<Rightarrow> string \<Rightarrow> int \<Rightarrow> parser" where
  "append_header s level text page =
     (case level of
        None \<Rightarrow> s
      | Some l \<Rightarrow>
          (case should_include_header s text page of
             (True, s1) \<Rightarrow> s1\<lparr>outline := outline s1 @ [\<lparr>e_level = l, e_text = text, e_page = page\<rparr>]\<rparr>
           | (False, s1) \<Rightarrow> s1))"

text \<open>The end of the loop body, from the second classification on.\<close>

definition classify_and_collect :: "parser \<Rightarrow> fragment \<Rightarrow> string \<Rightarrow> int \<Rightarrow> parser" where
  "classify_and_collect s e text page =
     (let level = (if Some page \<noteq> title_page s then classify_header_level s e else None);
          s1 = append_header s level text page
      in s1\<lparr>content := content s1 @ [\<lparr>c_text = text, c_page = page, c_type = ''paragraph''\<rparr>]\<rparr>)"

definition is_title_fragment :: "parser \<Rightarrow> string \<Rightarrow> int \<Rightarrow> bool" where
  "is_title_fragment s text page =
     (case title s of
        None \<Rightarrow> False
      | Some t \<Rightarrow> truthy t \<and> Some text = f_text t \<and> Some page = f_page t)"

definition step :: "parser \<Rightarrow> nat \<times> fragment \<Rightarrow> parser" where
  "step s ie =
     (let i = fst ie; e = snd ie;
          text = strip (get_text e);
          page = get_page e
      in if text = [] \<or> i \<in> table_elements s then s
         else if is_header_footer e \<or> is_version_or_date e \<or> is_dots_or_dashes e then s
         else if is_title_fragment s text page then s
         else if is_table_of_contents_header s e then
           (let s1 = s\<lparr>in_toc_section := True\<rparr>
            in append_header s1 (classify_header_level s1 e) text page)
         else if in_toc_section s then
           (if is_toc_content e then s
            else (case classify_header_level s e of
                    Some l \<Rightarrow> classify_and_collect (s\<lparr>in_toc_section := False\<rparr>) e text page
                  | None \<Rightarrow> s))
         else classify_and_collect s e text page)"

definition parse_pdf_data :: "parser \<Rightarrow> fragment list \<Rightarrow> (error + result) \<times> parser" where
  "parse_pdf_data s0 elements =
     (let s1 = init s0;
          s2 = detect_table_elements s1 elements;
          s3 = analyze_font_characteristics s2 elements
      in case identify_title s3 elements of
           Inl err \<Rightarrow> (Inl err, s3)
         | Inr t \<Rightarrow>
             let s4 = s3\<lparr>title := t\<rparr>;
                 s5 = s4\<lparr>title_page :=
                         (case title s4 of
                            None \<Rightarrow> None
                          | Some tf \<Rightarrow> if truthy tf then Some (get_page tf) else None)\<rparr>;
                 s6 = foldl step s5 (enumerate 0 elements)
             in (Inr \<lparr>r_title = extract_clean_title (title s6), r_outline = outline s6\<rparr>, s6))"

text \<open>A fragment with all four keys.\<close>

definition frag :: "string \<Rightarrow> int \<Rightarrow> rat \<Rightarrow> bool \<Rightarrow> fragment" where
  "frag t p f b = \<lparr>f_text = Some t, f_page = Some p, f_font_size = Some f, f_bold = Some b\<rparr>"

section \<open>Names for the stages of a run\<close>

text \<open>
  The state when title selection starts, and the state when the assembly pass starts,
  as \<open>parse_pdf_data\<close> builds them.
\<close>

definition prepared :: "parser \<Rightarrow> fragment list \<Rightarrow> parser" where
  "prepared s0 elements =
     analyze_font_characteristics (detect_table_elements (init s0) elements) elements"

definition with_title :: "parser \<Rightarrow> fragment option \<Rightarrow> parser" where
  "with_title s t =
     s\<lparr>title := t,
       title_page := (case t of None \<Rightarrow> None
                      | Some tf \<Rightarrow> if truthy tf then Some (get_page tf) else None)\<rparr>"

section \<open>Example documents\<close>

definition toc_scenario :: "fragment list" where
  "toc_scenario = [frag ''Table of Contents'' 1 14 True, frag ''1. Intro ..... 3'' 1 10 False,
     frag ''Introduction'' 3 18 True]"

definition twin_titles :: "fragment list" where
  "twin_titles = [frag ''Annual Report'' 1 20 True, frag ''Annual Report'' 1 20 False,
     frag ''This is the body text of the report, long enough to dominate.'' 1 10 False]"

definition table_word :: "fragment list" where
  "table_word = [frag ''syllabus'' 1 20 True]"

definition toc_on_title_page :: "fragment list" where
  "toc_on_title_page = [frag ''Big Title'' 1 24 True, frag ''Contents'' 1 14 True,
     frag ''some long body text here'' 1 10 False]"

definition index_title :: "fragment list" where
  "index_title = [frag ''Subject Index'' 1 20 True]"

text \<open>The fragments whose index the table region detector has not marked.\<close>

definition without_table_elements :: "parser \<Rightarrow> fragment list \<Rightarrow> fragment list" where
  "without_table_elements s elements =
     map snd (filter (\<lambda>(i, e). i \<notin> table_elements s) (enumerate 0 elements))"

section \<open>The body font size, as the specification words it\<close>

text \<open>
  The fragments retained by the three filters, those of one font size among them, and
  the score of a font size: the characters of their trimmed texts times the number of
  distinct pages they are on.
\<close>

definition retained :: "fragment list \<Rightarrow> fragment list" where
  "retained elements = filter (\<lambda>e. \<not> excluded e) elements"

definition with_font :: "fragment list \<Rightarrow> rat \<Rightarrow> fragment list" where
  "with_font elements f = filter (\<lambda>e. get_font_size e = f) (retained elements)"

definition char_total :: "fragment list \<Rightarrow> rat \<Rightarrow> nat" where
  "char_total elements f = sum_list (map (\<lambda>e. length (strip (get_text e))) (with_font elements f))"

definition page_count :: "fragment list \<Rightarrow> rat \<Rightarrow> nat" where
  "page_count elements f = card (get_page ` set (with_font elements f))"

definition score :: "fragment list \<Rightarrow> rat \<Rightarrow> nat" where
  "score elements f = char_total elements f * page_count elements f"

text \<open>The choice \<open>analyze_font_characteristics\<close> makes from its \<^verbatim>\<open>font_data\<close>.\<close>

definition body_font_of :: "(rat \<times> font_stat) list \<Rightarrow> rat" where
  "body_font_of font_data =
     (let candidates = map (\<lambda>(k, v). (fs_total_chars v * card (fs_pages v), k)) font_data
      in if candidates \<noteq> [] then snd (hd (sort_reverse candidates)) else 12)"

section \<open>Outline entries that come from a table-of-contents heading\<close>

text \<open>
  An outline entry is that of a table-of-contents heading when some fragment of the
  document matches a heading pattern and has the entry's text (trimmed) and page.
\<close>

definition toc_entry :: "parser \<Rightarrow> fragment list \<Rightarrow> outline_entry \<Rightarrow> bool" where
  "toc_entry s elements en =
     list_ex (\<lambda>e. is_table_of_contents_header s e \<and> strip (get_text e) = e_text en
                   \<and> get_page e = e_page en) elements"

definition title_page_inv :: "parser \<Rightarrow> fragment list \<Rightarrow> bool" where
  "title_page_inv s elements =
     list_all (\<lambda>en. Some (e_page en) = title_page s \<longrightarrow> toc_entry s elements en) (outline s)"

section \<open>What the deduplication guard maintains\<close>

text \<open>A document in which the heading "Overview" comes twice, on two pages.\<close>

definition repeated_overview :: "fragment list" where
  "repeated_overview = [frag ''Report Title'' 1 24 True,
     frag ''This is the running body text of the report.'' 1 10 False,
     frag ''Overview'' 2 14 True, frag ''Overview'' 5 14 True]"

text \<open>
  The invariant of the assembly pass behind the absence of duplicates: every outline
  entry has a trimmed text, its key (normalized text and page) is in \<^verbatim>\<open>seen_headers\<close>, and
  so is its normalized text when that is one of the three generic labels; no two entries
  agree on normalized text and page, and no generic label is the normalized text of two
  entries.
\<close>

definition dedup_inv :: "parser \<Rightarrow> bool" where
  "dedup_inv s =
     ((\<forall>en \<in> set (outline s).
         strip (e_text en) = e_text en
         \<and> header_key (e_text en) (e_page en) \<in> seen_headers s
         \<and> (normalized (e_text en) \<in> {''overview'', ''introduction'', ''summary''}
              \<longrightarrow> normalized (e_text en) \<in> seen_headers s))
      \<and> distinct (map (\<lambda>en. (normalized (e_text en), e_page en)) (outline s))
      \<and> (\<forall>g \<in> {''overview'', ''introduction'', ''summary''}.
            length (filter (\<lambda>en. normalized (e_text en) = g) (outline s)) \<le> 1))"

section \<open>The assembly pass, fragment by fragment\<close>

text \<open>
  The state of the assembly pass after its first \<open>n\<close> iterations, started in \<open>s\<close>: after
  \<open>length elements\<close> iterations it is the state in which the pass ends.
\<close>

definition pass_prefix :: "parser \<Rightarrow> fragment list \<Rightarrow> nat \<Rightarrow> parser" where
  "pass_prefix s elements n = foldl step s (take n (enumerate 0 elements))"

section \<open>Properties\<close>

subsection \<open>What the assembly pass leaves unchanged\<close>

lemma should_include_header_frame:
  "should_include_header s text page = (b, s') \<Longrightarrow>
   title s' = title s \<and> title_page s' = title_page s \<and> outline s' = outline s
   \<and> content s' = content s \<and> paragraph_font_size s' = paragraph_font_size s
   \<and> in_toc_section s' = in_toc_section s \<and> table_elements s' = table_elements s
   \<and> toc_patterns s' = toc_patterns s \<and> font_analysis s' = font_analysis s"
  by (auto simp: should_include_header_def Let_def split: if_splits)

lemma append_header_frame:
  "title (append_header s l text page) = title s"
  "title_page (append_header s l text page) = title_page s"
  "content (append_header s l text page) = content s"
  "paragraph_font_size (append_header s l text page) = paragraph_font_size s"
  "in_toc_section (append_header s l text page) = in_toc_section s"
  "table_elements (append_header s l text page) = table_elements s"
  "toc_patterns (append_header s l text page) = toc_patterns s"
  by (auto simp: append_header_def split: option.splits prod.splits bool.splits
      dest: should_include_header_frame)

lemma classify_and_collect_frame:
  "title (classify_and_collect s e text page) = title s"
  "title_page (classify_and_collect s e text page) = title_page s"
  "paragraph_font_size (classify_and_collect s e text page) = paragraph_font_size s"
  "in_toc_section (classify_and_collect s e text page) = in_toc_section s"
  "table_elements (classify_and_collect s e text page) = table_elements s"
  "toc_patterns (classify_and_collect s e text page) = toc_patterns s"
  by (simp_all add: classify_and_collect_def Let_def append_header_frame)

lemma step_frame:
  "title (step s ie) = title s"
  "title_page (step s ie) = title_page s"
  "paragraph_font_size (step s ie) = paragraph_font_size s"
  "table_elements (step s ie) = table_elements s"
  "toc_patterns (step s ie) = toc_patterns s"
  by (simp_all add: step_def Let_def append_header_frame classify_and_collect_frame
      split: option.splits)

lemma foldl_step_frame:
  "title (foldl step s ies) = title s"
  "title_page (foldl step s ies) = title_page s"
  "paragraph_font_size (foldl step s ies) = paragraph_font_size s"
  "table_elements (foldl step s ies) = table_elements s"
  "toc_patterns (foldl step s ies) = toc_patterns s"
  by (induction ies arbitrary: s) (simp_all add: step_frame)

subsection \<open>The two outcomes of a run\<close>

lemma parse_pdf_data_Inl:
  "identify_title (prepared s0 els) els = Inl err \<Longrightarrow>
   parse_pdf_data s0 els = (Inl err, prepared s0 els)"
  by (simp add: parse_pdf_data_def prepared_def)

lemma parse_pdf_data_Inr:
  "identify_title (prepared s0 els) els = Inr t \<Longrightarrow>
   parse_pdf_data s0 els =
     (Inr \<lparr>r_title = extract_clean_title t,
           r_outline = outline (foldl step (with_title (prepared s0 els) t) (enumerate 0 els))\<rparr>,
      foldl step (with_title (prepared s0 els) t) (enumerate 0 els))"
  by (simp add: parse_pdf_data_def prepared_def with_title_def Let_def foldl_step_frame)

lemma prepared_any: "prepared s els = prepared s' els"
  by (simp add: prepared_def init_def)

lemma title_candidates_Nil [simp]: "title_candidates s [] = []"
  by (simp add: title_candidates_def)

subsection \<open>The default title\<close>

text \<open>
  When the candidate pool of the title is empty, title selection returns \<^verbatim>\<open>None\<close>, the
  run returns a result and its title is the default string \<^verbatim>\<open>"Untitled Document"\<close>; the
  empty fragment sequence gives the default title and the empty outline.
\<close>

lemma default_title:
  "(title_candidates (prepared s0 els) els = [] \<longrightarrow>
      (\<exists>outl. fst (parse_pdf_data s0 els) = Inr \<lparr>r_title = ''Untitled Document'', r_outline = outl\<rparr>))
   \<and> fst (parse_pdf_data s0 []) = Inr \<lparr>r_title = ''Untitled Document'', r_outline = []\<rparr>"
proof (intro conjI impI)
  assume "title_candidates (prepared s0 els) els = []"
  then have "identify_title (prepared s0 els) els = Inr None"
    by (simp add: identify_title_def)
  then show "\<exists>outl. fst (parse_pdf_data s0 els) = Inr \<lparr>r_title = ''Untitled Document'', r_outline = outl\<rparr>"
    by (simp add: parse_pdf_data_Inr extract_clean_title_def)
next
  have "identify_title (prepared s0 []) [] = Inr None"
    by (simp add: identify_title_def)
  then show "fst (parse_pdf_data s0 []) = Inr \<lparr>r_title = ''Untitled Document'', r_outline = []\<rparr>"
    by (simp add: parse_pdf_data_Inr extract_clean_title_def with_title_def prepared_def
        analyze_font_characteristics_def detect_table_elements_def font_data_of_def init_def
        PDFTitleHeaderParser_def)
qed

lemma default_title_example:
  "title_candidates (prepared PDFTitleHeaderParser [frag ''12'' 1 12 False]) [frag ''12'' 1 12 False] = []
   \<and> (\<exists>outl. fst (parse_pdf_data PDFTitleHeaderParser [frag ''12'' 1 12 False])
         = Inr \<lparr>r_title = ''Untitled Document'', r_outline = outl\<rparr>)"
proof -
  have h: "title_candidates (prepared PDFTitleHeaderParser [frag ''12'' 1 12 False]) [frag ''12'' 1 12 False] = []"
    by code_simp
  with default_title [of PDFTitleHeaderParser "[frag ''12'' 1 12 False]"] show ?thesis
    by blast
qed

subsection \<open>Independence of the state before the call\<close>

text \<open>
  C9. A run starts by resetting every field of the instance, so its outcome (the result
  record, or the error) and the state it leaves do not depend on the state it starts from:
  two instances give the same outcome on the same fragments, and so does one instance
  run twice in succession.
\<close>

theorem parse_pdf_data_deterministic:
  "parse_pdf_data s els = parse_pdf_data s' els
   \<and> fst (parse_pdf_data (snd (parse_pdf_data s els)) els) = fst (parse_pdf_data s els)"
  by (simp add: parse_pdf_data_def init_def)

subsection \<open>Runs of the example documents\<close>

lemma toc_scenario_run:
  "fst (parse_pdf_data s toc_scenario) =
     Inr \<lparr>r_title = ''Introduction'',
          r_outline = [\<lparr>e_level = ''H2'', e_text = ''Table of Contents'', e_page = 1\<rparr>]\<rparr>"
  "paragraph_font_size (snd (parse_pdf_data s toc_scenario)) = 14"
  by code_simp+

lemma table_word_run:
  "table_elements (snd (parse_pdf_data s table_word)) = {0}"
  "paragraph_font_size (snd (parse_pdf_data s table_word)) = 20"
  "title (snd (parse_pdf_data s table_word)) = Some (frag ''syllabus'' 1 20 True)"
  "without_table_elements (snd (parse_pdf_data s table_word)) table_word = []"
  by code_simp+

lemma toc_on_title_page_run:
  "fst (parse_pdf_data s toc_on_title_page) =
     Inr \<lparr>r_title = ''Big Title'',
          r_outline = [\<lparr>e_level = ''H1'', e_text = ''Contents'', e_page = 1\<rparr>]\<rparr>"
  "title_page (snd (parse_pdf_data s toc_on_title_page)) = Some 1"
  by code_simp+

lemma index_title_run:
  "is_table_of_contents_header (snd (parse_pdf_data s index_title)) (frag ''Subject Index'' 1 20 True)"
  "\<not> in_toc_section (snd (parse_pdf_data s index_title))"
  by code_simp+

text \<open>
  C3. The claim is that a run raises no error on any fragment sequence, also when
  fragments repeat with the same font size, page and trimmed text. The code does raise:
  in \<open>twin_titles\<close> two title candidates agree on font size, page and trimmed text and
  differ in \<open>bold\<close>, the sort of the candidates compares their dicts, and the run ends in
  \<^verbatim>\<open>TypeError\<close> with no result record.
\<close>

theorem twin_titles_raise: "fst (parse_pdf_data s twin_titles) = Inl TypeError"
  by code_simp

text \<open>
  C8. The claim is that every fragment sequence has an output title that is a string,
  the default string when there is no title candidate. The fallback itself is in the
  code: with no candidate the run returns the default title. But the title is part of the
  result record, and a run that raises returns none: on \<open>twin_titles\<close> title selection
  raises \<^verbatim>\<open>TypeError\<close> when it sorts the two tied candidates, so for this fragment
  sequence there is no result record and hence no output title at all.
\<close>

theorem twin_titles_no_title: "\<not> (\<exists>r. fst (parse_pdf_data s twin_titles) = Inr r)"
proof -
  have "fst (parse_pdf_data s twin_titles) = Inl TypeError"
    by code_simp
  then show ?thesis by simp
qed

text \<open>
  C4. For the three fragments of the scenario the claim gives the outline
  \<^verbatim>\<open>[{H1, "Introduction", 3}]\<close>. The run computes the body font size 14 (not 10), selects
  "Introduction" as the title and skips it, and classifies the bold "Table of Contents"
  line, which has the body font size, as H2: the outline is
  \<^verbatim>\<open>[{H2, "Table of Contents", 1}]\<close> and the title is "Introduction".
\<close>

theorem toc_scenario_outline:
  "fst (parse_pdf_data s toc_scenario) =
     Inr \<lparr>r_title = ''Introduction'',
          r_outline = [\<lparr>e_level = ''H2'', e_text = ''Table of Contents'', e_page = 1\<rparr>]\<rparr>
   \<and> paragraph_font_size (snd (parse_pdf_data s toc_scenario)) = 14"
  by (simp add: toc_scenario_run)

theorem toc_scenario_counterexample:
  "\<not> (\<exists>r. fst (parse_pdf_data PDFTitleHeaderParser toc_scenario) = Inr r
         \<and> r_outline r = [\<lparr>e_level = ''H1'', e_text = ''Introduction'', e_page = 3\<rparr>])"
  by (simp add: toc_scenario_run)

subsection \<open>Font profiling\<close>

lemma foldl_invariant:
  "P s \<Longrightarrow> (\<And>s x. P s \<Longrightarrow> P (f s x)) \<Longrightarrow> P (foldl f s xs)"
  by (induction xs arbitrary: s) simp_all

lemma foldl_filter_skip:
  "(\<And>a x. \<not> P x \<Longrightarrow> f a x = a) \<Longrightarrow> foldl f a (filter P xs) = foldl f a xs"
  by (induction xs arbitrary: a) simp_all

lemma detect_table_elements_paragraph_font_size:
  "paragraph_font_size (detect_table_elements s els) = paragraph_font_size s"
  unfolding detect_table_elements_def Let_def
  by (rule foldl_invariant, simp, rule foldl_invariant, simp, simp split: prod.splits)

lemma font_data_of_filter:
  "font_data_of (filter (\<lambda>e. \<not> excluded e) els) = font_data_of els"
  unfolding font_data_of_def
  by (rule foldl_filter_skip) (simp add: excluded_def)


lemma prepared_paragraph_font_size:
  "paragraph_font_size (prepared s els) = body_font_of (font_data_of els)"
  by (simp add: prepared_def analyze_font_characteristics_def Let_def body_font_of_def
      detect_table_elements_paragraph_font_size init_def PDFTitleHeaderParser_def)

lemma parse_paragraph_font_size:
  "paragraph_font_size (snd (parse_pdf_data s els)) = paragraph_font_size (prepared s els)"
proof (cases "identify_title (prepared s els) els")
  case (Inl err)
  then show ?thesis by (simp add: parse_pdf_data_Inl)
next
  case (Inr t)
  then show ?thesis by (simp add: parse_pdf_data_Inr foldl_step_frame with_title_def)
qed

lemma empty_run_paragraph_font_size:
  "paragraph_font_size (snd (parse_pdf_data s [])) = 12"
  by (simp add: parse_paragraph_font_size prepared_paragraph_font_size font_data_of_def
      body_font_of_def)

lemma sorted_last_greatest:
  "sorted ys \<Longrightarrow> x \<in> set ys \<Longrightarrow> x \<le> last ys"
  by (induction ys) auto

lemma sort_reverse_hd:
  assumes "c \<noteq> []"
  shows "hd (sort_reverse c) \<in> set c" and "x \<in> set c \<Longrightarrow> x \<le> hd (sort_reverse c)"
proof -
  have ne: "sort (rev c) \<noteq> []" using assms by (metis length_sort length_rev length_0_conv)
  have eq: "hd (sort_reverse c) = last (sort (rev c))"
    using ne by (simp add: sort_reverse_def hd_rev)
  show "hd (sort_reverse c) \<in> set c"
    using last_in_set [OF ne] by (simp add: eq)
  show "x \<in> set c \<Longrightarrow> x \<le> hd (sort_reverse c)"
    using sorted_last_greatest [of "sort (rev c)" x] by (simp add: eq)
qed

lemma font_data_of_snoc:
  "font_data_of (els @ [e]) =
     (if excluded e then font_data_of els
      else font_add (font_data_of els) (get_font_size e) (length (strip (get_text e))) (get_page e))"
  by (simp add: font_data_of_def excluded_def)

lemma font_data_of_Nil [simp]: "font_data_of [] = []"
  by (simp add: font_data_of_def)

lemma font_add_keys:
  "fst ` set (font_add d k n p) = insert k (fst ` set d)"
  by (induction d k n p rule: font_add.induct) auto

lemma font_add_distinct:
  "distinct (map fst d) \<Longrightarrow> distinct (map fst (font_add d k n p))"
  by (induction d k n p rule: font_add.induct) (auto simp: font_add_keys)

lemma font_add_map_of:
  "map_of (font_add d k n p) =
     (map_of d)(k \<mapsto> (case map_of d k of
        None \<Rightarrow> \<lparr>fs_count = 1, fs_total_chars = n, fs_pages = {p}\<rparr>
      | Some v \<Rightarrow> \<lparr>fs_count = fs_count v + 1, fs_total_chars = fs_total_chars v + n,
                   fs_pages = insert p (fs_pages v)\<rparr>))"
  by (induction d k n p rule: font_add.induct) (auto simp: fun_eq_iff)

lemma font_data_of_keys:
  "fst ` set (font_data_of els) = get_font_size ` set (retained els)"
  by (induction els rule: rev_induct)
     (auto simp: font_data_of_snoc font_add_keys retained_def)

lemma font_data_of_distinct: "distinct (map fst (font_data_of els))"
  by (induction els rule: rev_induct)
     (auto simp: font_data_of_snoc font_add_distinct)

lemma font_data_of_stats:
  "map_of (font_data_of els) k = Some v \<Longrightarrow>
   fs_total_chars v = char_total els k \<and> fs_pages v = get_page ` set (with_font els k)"
proof (induction els arbitrary: v rule: rev_induct)
  case Nil
  then show ?case by simp
next
  case (snoc e els)
  show ?case
  proof (cases "excluded e")
    case True
    with snoc show ?thesis
      by (simp add: font_data_of_snoc char_total_def with_font_def retained_def)
  next
    case False
    show ?thesis
    proof (cases "get_font_size e = k")
      case other: False
      with False snoc show ?thesis
        by (simp add: font_data_of_snoc font_add_map_of char_total_def with_font_def retained_def)
    next
      case same: True
      show ?thesis
      proof (cases "map_of (font_data_of els) k")
        case None
        then have "k \<notin> fst ` set (font_data_of els)"
          by (simp add: map_of_eq_None_iff)
        then have "with_font els k = []"
          by (auto simp: font_data_of_keys with_font_def filter_empty_conv)
        with None False same snoc.prems show ?thesis
          by (auto simp: font_data_of_snoc font_add_map_of char_total_def with_font_def retained_def)
      next
        case (Some w)
        from snoc.IH [OF Some] Some False same snoc.prems show ?thesis
          by (auto simp: font_data_of_snoc font_add_map_of char_total_def with_font_def retained_def)
      qed
    qed
  qed
qed

lemma candidates_set:
  "set (map (\<lambda>(k, v). (fs_total_chars v * card (fs_pages v), k)) (font_data_of els))
     = (\<lambda>k. (score els k, k)) ` get_font_size ` set (retained els)"
proof -
  have "(fs_total_chars v * card (fs_pages v), k) = (score els k, k)"
    if "(k, v) \<in> set (font_data_of els)" for k v
  proof -
    from that have "map_of (font_data_of els) k = Some v"
      by (simp add: font_data_of_distinct)
    from font_data_of_stats [OF this] show ?thesis
      by (simp add: score_def page_count_def)
  qed
  then have "set (map (\<lambda>(k, v). (fs_total_chars v * card (fs_pages v), k)) (font_data_of els))
     = (\<lambda>k. (score els k, k)) ` fst ` set (font_data_of els)"
    by (force simp: image_iff)
  then show ?thesis by (simp add: font_data_of_keys)
qed

text \<open>
  C1. The claim is that fragments marked by the table region detector take no part in
  font profiling. \<open>analyze_font_characteristics\<close> never reads \<open>table_elements\<close>: in
  \<open>table_word\<close> the only fragment is marked and still sets the body font size, 20,
  where the sequence without it gives 12. What the scan leaves out are the fragments
  matched by one of the three filters: the body font size of a document is that of
  the document without those fragments.
\<close>

theorem body_font_ignores_filtered:
  "paragraph_font_size (snd (parse_pdf_data s els)) =
   paragraph_font_size (snd (parse_pdf_data s' (filter (\<lambda>e. \<not> excluded e) els)))"
  by (simp add: parse_paragraph_font_size prepared_paragraph_font_size font_data_of_filter)

theorem table_element_profiled_counterexample:
  "table_elements (snd (parse_pdf_data PDFTitleHeaderParser table_word)) = {0}
   \<and> paragraph_font_size (snd (parse_pdf_data PDFTitleHeaderParser table_word)) = 20
   \<and> paragraph_font_size (snd (parse_pdf_data PDFTitleHeaderParser
        (without_table_elements (snd (parse_pdf_data PDFTitleHeaderParser table_word)) table_word))) = 12"
  using table_word_run [of PDFTitleHeaderParser]
  by (simp only: empty_run_paragraph_font_size simp_thms)

text \<open>
  C7. If no fragment passes the three filters, the body font size is 12. Otherwise it
  is the font size of a retained fragment whose score is greatest, and among the font
  sizes of that score the largest.
\<close>

theorem body_font_size_maximal:
  "(retained els = [] \<longrightarrow> paragraph_font_size (snd (parse_pdf_data s els)) = 12)
   \<and> (retained els \<noteq> [] \<longrightarrow>
        paragraph_font_size (snd (parse_pdf_data s els)) \<in> get_font_size ` set (retained els)
        \<and> (\<forall>f \<in> get_font_size ` set (retained els).
             score els f < score els (paragraph_font_size (snd (parse_pdf_data s els)))
             \<or> (score els f = score els (paragraph_font_size (snd (parse_pdf_data s els)))
                \<and> f \<le> paragraph_font_size (snd (parse_pdf_data s els)))))"
proof (intro conjI impI)
  let ?c = "map (\<lambda>(k, v). (fs_total_chars v * card (fs_pages v), k)) (font_data_of els)"
  let ?b = "paragraph_font_size (snd (parse_pdf_data s els))"
  have b: "?b = (if ?c \<noteq> [] then snd (hd (sort_reverse ?c)) else 12)"
    by (simp add: parse_paragraph_font_size prepared_paragraph_font_size body_font_of_def)
  have cs: "set ?c = (\<lambda>k. (score els k, k)) ` get_font_size ` set (retained els)"
    by (rule candidates_set)
  {
    assume "retained els = []"
    with cs have "?c = []" by (simp del: set_map)
    with b show "?b = 12" by simp
  }
  assume ne: "retained els \<noteq> []"
  with cs have cne: "?c \<noteq> []" by (auto simp del: set_map)
  from sort_reverse_hd(1) [OF cne] cs
  obtain k where k: "k \<in> get_font_size ` set (retained els)"
    and hd: "hd (sort_reverse ?c) = (score els k, k)"
    by (auto simp del: set_map)
  from b cne hd have bk: "?b = k" by simp
  show "?b \<in> get_font_size ` set (retained els)" using k bk by simp
  show "\<forall>f \<in> get_font_size ` set (retained els).
          score els f < score els ?b \<or> (score els f = score els ?b \<and> f \<le> ?b)"
  proof
    fix f assume "f \<in> get_font_size ` set (retained els)"
    then have "(score els f, f) \<in> set ?c" using cs by (auto simp del: set_map)
    from sort_reverse_hd(2) [OF cne this] have "(score els f, f) \<le> (score els k, k)"
      by (simp add: hd)
    then show "score els f < score els ?b \<or> (score els f = score els ?b \<and> f \<le> ?b)"
      unfolding bk by (auto simp: less_eq_prod_def)
  qed
qed

theorem body_font_size_maximal_witness:
  "retained [] = [] \<and> paragraph_font_size (snd (parse_pdf_data PDFTitleHeaderParser [])) = 12
   \<and> retained toc_scenario \<noteq> []
   \<and> paragraph_font_size (snd (parse_pdf_data PDFTitleHeaderParser toc_scenario))
       \<in> get_font_size ` set (retained toc_scenario)
   \<and> score toc_scenario 18
       < score toc_scenario (paragraph_font_size (snd (parse_pdf_data PDFTitleHeaderParser toc_scenario)))"
proof -
  have e: "retained [] = []" by (simp add: retained_def)
  have ne: "retained toc_scenario \<noteq> []" by code_simp
  have m: "18 \<in> get_font_size ` set (retained toc_scenario)" by code_simp
  have b: "paragraph_font_size (snd (parse_pdf_data PDFTitleHeaderParser toc_scenario)) = 14"
    by (rule toc_scenario_run)
  from body_font_size_maximal [of "[]" PDFTitleHeaderParser] e
  have "paragraph_font_size (snd (parse_pdf_data PDFTitleHeaderParser [])) = 12" by blast
  moreover from body_font_size_maximal [of toc_scenario PDFTitleHeaderParser] ne
  have "paragraph_font_size (snd (parse_pdf_data PDFTitleHeaderParser toc_scenario))
          \<in> get_font_size ` set (retained toc_scenario)"
    and "\<forall>f \<in> get_font_size ` set (retained toc_scenario).
          score toc_scenario f
            < score toc_scenario (paragraph_font_size (snd (parse_pdf_data PDFTitleHeaderParser toc_scenario)))
          \<or> (score toc_scenario f
               = score toc_scenario (paragraph_font_size (snd (parse_pdf_data PDFTitleHeaderParser toc_scenario)))
             \<and> f \<le> paragraph_font_size (snd (parse_pdf_data PDFTitleHeaderParser toc_scenario)))"
    by blast+
  moreover from this(2) m b
  have "score toc_scenario 18
          < score toc_scenario (paragraph_font_size (snd (parse_pdf_data PDFTitleHeaderParser toc_scenario)))"
    by auto
  ultimately show ?thesis using e ne by blast
qed

subsection \<open>Title selection\<close>

lemma detect_table_elements_frame:
  "title (detect_table_elements s els) = title s"
  "outline (detect_table_elements s els) = outline s"
  "seen_headers (detect_table_elements s els) = seen_headers s"
  "in_toc_section (detect_table_elements s els) = in_toc_section s"
  "toc_patterns (detect_table_elements s els) = toc_patterns s"
  unfolding detect_table_elements_def Let_def
  by (rule foldl_invariant, simp, rule foldl_invariant, simp, simp split: prod.splits)+

lemma prepared_frame:
  "title (prepared s els) = None"
  "outline (prepared s els) = []"
  "seen_headers (prepared s els) = {}"
  "toc_patterns (prepared s els) = toc_patterns PDFTitleHeaderParser"
  by (simp_all add: prepared_def analyze_font_characteristics_def Let_def
      detect_table_elements_frame init_def PDFTitleHeaderParser_def)

lemma sort_candidates_hd:
  assumes "sort_candidates cs = Inr ordered" and "cs \<noteq> []"
  shows "hd ordered \<in> set cs"
proof -
  have o: "ordered = rev (sort_key fst (rev cs))"
    using assms(1) by (simp add: sort_candidates_def split: if_splits)
  have ne: "sort_key fst (rev cs) \<noteq> []"
    using assms(2) by (metis length_sort length_rev length_0_conv)
  from last_in_set [OF ne] show ?thesis
    using ne by (simp add: o hd_rev)
qed

lemma identify_title_Some:
  "identify_title s els = Inr (Some t) \<Longrightarrow> t \<in> snd ` set (title_candidates s els)"
  by (auto simp: identify_title_def Let_def split: if_splits sum.splits dest: sort_candidates_hd)

lemma title_candidates_member:
  "c \<in> set (title_candidates s els) \<Longrightarrow>
   snd c \<in> set els \<and> \<not> is_header_footer (snd c) \<and> \<not> is_version_or_date (snd c)
   \<and> \<not> is_dots_or_dashes (snd c) \<and> \<not> is_paragraph_text s (snd c)
   \<and> 3 \<le> length (strip (get_text (snd c)))"
  by (auto simp: title_candidates_def)

lemma is_paragraph_text_cong:
  "paragraph_font_size s = paragraph_font_size s' \<Longrightarrow>
   is_paragraph_text s e = is_paragraph_text s' e"
  by (simp add: is_paragraph_text_def)

text \<open>
  C5. The claim is that no fragment marked by the table region detector is in the
  candidate pool of the title. \<open>identify_title\<close> never reads \<open>table_elements\<close>: in
  \<open>table_word\<close> the fragment at index 0 is marked and is the title. What the pool
  leaves out are the fragments matched by one of the three filters, the paragraph
  text, and the fragments whose trimmed text is shorter than three characters: the
  title is a fragment of the document with none of these properties.
\<close>

theorem title_from_pool:
  assumes "title (snd (parse_pdf_data s0 els)) = Some t"
  shows "t \<in> set els \<and> \<not> is_header_footer t \<and> \<not> is_version_or_date t
         \<and> \<not> is_dots_or_dashes t \<and> \<not> is_paragraph_text (snd (parse_pdf_data s0 els)) t
         \<and> 3 \<le> length (strip (get_text t))"
proof (cases "identify_title (prepared s0 els) els")
  case (Inl err)
  with assms show ?thesis by (simp add: parse_pdf_data_Inl prepared_frame)
next
  case (Inr t')
  with assms have "t' = Some t"
    by (simp add: parse_pdf_data_Inr foldl_step_frame with_title_def)
  with Inr obtain c where c: "c \<in> set (title_candidates (prepared s0 els) els)" and t: "t = snd c"
    by (auto dest: identify_title_Some)
  have "is_paragraph_text (snd (parse_pdf_data s0 els)) t = is_paragraph_text (prepared s0 els) t"
    by (rule is_paragraph_text_cong) (rule parse_paragraph_font_size)
  with title_candidates_member [OF c] t show ?thesis by simp
qed

theorem title_from_pool_witness:
  "title (snd (parse_pdf_data PDFTitleHeaderParser table_word)) = Some (frag ''syllabus'' 1 20 True)
   \<and> frag ''syllabus'' 1 20 True \<in> set table_word
   \<and> \<not> is_header_footer (frag ''syllabus'' 1 20 True)
   \<and> \<not> is_paragraph_text (snd (parse_pdf_data PDFTitleHeaderParser table_word)) (frag ''syllabus'' 1 20 True)
   \<and> 3 \<le> length (strip (get_text (frag ''syllabus'' 1 20 True)))"
proof -
  have h: "title (snd (parse_pdf_data PDFTitleHeaderParser table_word)) = Some (frag ''syllabus'' 1 20 True)"
    by (rule table_word_run)
  from title_from_pool [OF h] h show ?thesis by blast
qed

theorem table_element_title_counterexample:
  "0 \<in> table_elements (snd (parse_pdf_data PDFTitleHeaderParser table_word))
   \<and> title (snd (parse_pdf_data PDFTitleHeaderParser table_word)) = Some (table_word ! 0)"
  using table_word_run [of PDFTitleHeaderParser] by (simp add: table_word_def)

subsection \<open>Headings on the page of the title\<close>

lemma append_header_outline:
  "outline (append_header s l text page) = outline s
   \<or> (\<exists>lv. outline (append_header s l text page)
            = outline s @ [\<lparr>e_level = lv, e_text = text, e_page = page\<rparr>])"
  by (auto simp: append_header_def split: option.splits prod.splits bool.splits
      dest: should_include_header_frame)

lemma classify_and_collect_outline:
  "outline (classify_and_collect s e text page) = outline s
   \<or> (Some page \<noteq> title_page s
      \<and> (\<exists>lv. outline (classify_and_collect s e text page)
            = outline s @ [\<lparr>e_level = lv, e_text = text, e_page = page\<rparr>]))"
proof (cases "Some page \<noteq> title_page s")
  case True
  with append_header_outline [of s "classify_header_level s e" "text" page] show ?thesis
    by (auto simp: classify_and_collect_def Let_def)
next
  case False
  then show ?thesis by (simp add: classify_and_collect_def Let_def append_header_def)
qed

lemma is_table_of_contents_header_cong:
  "toc_patterns s = toc_patterns s' \<Longrightarrow>
   is_table_of_contents_header s e = is_table_of_contents_header s' e"
  by (simp add: is_table_of_contents_header_def)

lemma step_outline:
  "outline (step s ie) = outline s
   \<or> ((is_table_of_contents_header s (snd ie) \<or> Some (get_page (snd ie)) \<noteq> title_page s)
      \<and> (\<exists>lv. outline (step s ie)
            = outline s @ [\<lparr>e_level = lv, e_text = strip (get_text (snd ie)),
                            e_page = get_page (snd ie)\<rparr>]))"
proof -
  let ?e = "snd ie" and ?text = "strip (get_text (snd ie))" and ?page = "get_page (snd ie)"
  note a = append_header_outline [of "s\<lparr>in_toc_section := True\<rparr>"
      "classify_header_level (s\<lparr>in_toc_section := True\<rparr>) ?e" ?text ?page]
  note b = classify_and_collect_outline [of "s\<lparr>in_toc_section := False\<rparr>" ?e ?text ?page]
  note c = classify_and_collect_outline [of s ?e ?text ?page]
  show ?thesis
    using a b c by (auto simp: step_def Let_def split: option.splits)
qed

lemma toc_entry_cong:
  "toc_patterns s = toc_patterns s' \<Longrightarrow> toc_entry s els en = toc_entry s' els en"
  by (simp add: toc_entry_def is_table_of_contents_header_def)

lemma step_title_page_inv:
  assumes "title_page_inv s els" and "snd ie \<in> set els"
  shows "title_page_inv (step s ie) els"
proof -
  have tc: "toc_entry (step s ie) els en = toc_entry s els en" for en
    by (rule toc_entry_cong) (simp add: step_frame)
  from step_outline [of s ie] show ?thesis
  proof
    assume "outline (step s ie) = outline s"
    with assms(1) show ?thesis
      by (simp add: title_page_inv_def step_frame tc)
  next
    assume "(is_table_of_contents_header s (snd ie) \<or> Some (get_page (snd ie)) \<noteq> title_page s)
      \<and> (\<exists>lv. outline (step s ie)
            = outline s @ [\<lparr>e_level = lv, e_text = strip (get_text (snd ie)),
                            e_page = get_page (snd ie)\<rparr>])"
    then obtain lv where
      o: "outline (step s ie) = outline s @ [\<lparr>e_level = lv, e_text = strip (get_text (snd ie)),
                            e_page = get_page (snd ie)\<rparr>]"
      and d: "is_table_of_contents_header s (snd ie) \<or> Some (get_page (snd ie)) \<noteq> title_page s"
      by blast
    from d assms(2) have
      "Some (get_page (snd ie)) = title_page s \<longrightarrow>
       toc_entry s els \<lparr>e_level = lv, e_text = strip (get_text (snd ie)), e_page = get_page (snd ie)\<rparr>"
      by (auto simp: toc_entry_def list_ex_iff)
    with assms(1) show ?thesis
      by (simp add: title_page_inv_def step_frame tc o)
  qed
qed

lemma foldl_step_title_page_inv:
  "title_page_inv s els \<Longrightarrow> snd ` set ies \<subseteq> set els \<Longrightarrow> title_page_inv (foldl step s ies) els"
  by (induction ies arbitrary: s) (auto intro: step_title_page_inv)

lemma snd_enumerate_subset: "snd ` set (enumerate n xs) \<subseteq> set xs"
  by (auto simp: in_set_enumerate_eq)

text \<open>
  C2. The claim is that no fragment on the page of the title gives an outline entry,
  fragments matching a table-of-contents heading pattern included. The branch of the
  pass for such headings classifies and appends without comparing pages: in
  \<open>toc_on_title_page\<close> the title and the heading "Contents" are on page 1 and the
  heading is in the outline. Every other append is behind the comparison with the
  page of the title: an outline entry on that page is the entry of a fragment that
  matches a table-of-contents heading pattern.
\<close>

theorem title_page_entries_are_toc_headers:
  assumes "fst (parse_pdf_data s0 els) = Inr r"
    and "en \<in> set (r_outline r)"
    and "title_page (snd (parse_pdf_data s0 els)) = Some (e_page en)"
  shows "toc_entry (snd (parse_pdf_data s0 els)) els en"
proof (cases "identify_title (prepared s0 els) els")
  case (Inl err)
  with assms(1) show ?thesis by (simp add: parse_pdf_data_Inl)
next
  case (Inr t)
  let ?s = "with_title (prepared s0 els) t"
  have "title_page_inv ?s els"
    by (simp add: title_page_inv_def with_title_def prepared_frame)
  then have "title_page_inv (foldl step ?s (enumerate 0 els)) els"
    by (rule foldl_step_title_page_inv) (rule snd_enumerate_subset)
  with Inr assms show ?thesis
    by (auto simp: parse_pdf_data_Inr title_page_inv_def list_all_iff)
qed

theorem title_page_entries_are_toc_headers_witness:
  "fst (parse_pdf_data PDFTitleHeaderParser toc_on_title_page) =
     Inr \<lparr>r_title = ''Big Title'',
          r_outline = [\<lparr>e_level = ''H1'', e_text = ''Contents'', e_page = 1\<rparr>]\<rparr>
   \<and> title_page (snd (parse_pdf_data PDFTitleHeaderParser toc_on_title_page)) = Some 1
   \<and> toc_entry (snd (parse_pdf_data PDFTitleHeaderParser toc_on_title_page)) toc_on_title_page
        \<lparr>e_level = ''H1'', e_text = ''Contents'', e_page = 1\<rparr>"
proof -
  let ?en = "\<lparr>e_level = ''H1'', e_text = ''Contents'', e_page = 1\<rparr>"
  let ?r = "\<lparr>r_title = ''Big Title'', r_outline = [?en]\<rparr>"
  have h1: "fst (parse_pdf_data PDFTitleHeaderParser toc_on_title_page) = Inr ?r"
    by (rule toc_on_title_page_run)
  have h2: "?en \<in> set (r_outline ?r)" by simp
  have h3: "title_page (snd (parse_pdf_data PDFTitleHeaderParser toc_on_title_page)) = Some (e_page ?en)"
    by (simp add: toc_on_title_page_run)
  from title_page_entries_are_toc_headers [OF h1 h2 h3] h1 h3 show ?thesis by simp
qed

theorem title_page_heading_counterexample:
  "\<exists>r en. fst (parse_pdf_data PDFTitleHeaderParser toc_on_title_page) = Inr r
     \<and> en \<in> set (r_outline r)
     \<and> title_page (snd (parse_pdf_data PDFTitleHeaderParser toc_on_title_page)) = Some (e_page en)"
proof -
  let ?en = "\<lparr>e_level = ''H1'', e_text = ''Contents'', e_page = 1\<rparr>"
  let ?r = "\<lparr>r_title = ''Big Title'', r_outline = [?en]\<rparr>"
  have "fst (parse_pdf_data PDFTitleHeaderParser toc_on_title_page) = Inr ?r"
    by (rule toc_on_title_page_run)
  moreover have "?en \<in> set (r_outline ?r)" by simp
  moreover have "title_page (snd (parse_pdf_data PDFTitleHeaderParser toc_on_title_page)) = Some (e_page ?en)"
    by (simp add: toc_on_title_page_run)
  ultimately show ?thesis by blast
qed

subsection \<open>Deduplication of headings\<close>

lemma strip_hd:
  assumes "xs \<noteq> []" and "\<not> P (hd xs)"
  shows "dropWhile P (rev (dropWhile P (rev xs))) = rev (dropWhile P (rev xs))"
proof -
  obtain x xs' where xs: "xs = x # xs'" using assms(1) by (cases xs) auto
  have "dropWhile P (rev xs' @ [x]) = dropWhile P (rev xs') @ [x] \<or> dropWhile P (rev xs' @ [x]) = [x]"
    using assms(2) xs by (auto simp: dropWhile_append)
  then show ?thesis using assms(2) xs by auto
qed

lemma strip_idem: "strip (strip s) = strip s"
proof (cases "dropWhile is_space s = []")
  case True
  show ?thesis unfolding strip_def True by simp
next
  case False
  then have "\<not> is_space (hd (dropWhile is_space s))" by (rule hd_dropWhile)
  from strip_hd [of "dropWhile is_space s" is_space, OF False this] show ?thesis
    by (simp add: strip_def)
qed

lemma should_include_header_True:
  assumes "should_include_header s t page = (True, s')"
  shows "header_key t page \<notin> seen_headers s"
    and "normalized t \<in> {''overview'', ''introduction'', ''summary''} \<Longrightarrow> normalized t \<notin> seen_headers s"
    and "header_key t page \<in> seen_headers s'"
    and "normalized t \<in> {''overview'', ''introduction'', ''summary''} \<Longrightarrow> normalized t \<in> seen_headers s'"
    and "seen_headers s \<subseteq> seen_headers s'"
    and "outline s' = outline s"
  using assms by (auto simp: should_include_header_def Let_def split: if_splits)

lemma should_include_header_False:
  assumes "should_include_header s t page = (False, s')"
  shows "seen_headers s \<subseteq> seen_headers s'" and "outline s' = outline s"
  using assms by (auto simp: should_include_header_def Let_def split: if_splits)

lemma dedup_inv_mono:
  "dedup_inv s \<Longrightarrow> outline s' = outline s \<Longrightarrow> seen_headers s \<subseteq> seen_headers s' \<Longrightarrow> dedup_inv s'"
  unfolding dedup_inv_def by (simp add: subset_iff)

lemma dedup_inv_append:
  assumes inv: "dedup_inv s"
    and t: "should_include_header s (strip t) page = (True, s1)"
  shows "dedup_inv (s1\<lparr>outline := outline s1 @ [\<lparr>e_level = l, e_text = strip t, e_page = page\<rparr>]\<rparr>)"
proof -
  define G where "G = {''overview'', ''introduction'', ''summary''}"
  note f = should_include_header_True [OF t, folded G_def]
  note i = inv [unfolded dedup_inv_def, folded G_def]
  have old: "\<forall>en \<in> set (outline s).
         strip (e_text en) = e_text en
         \<and> header_key (e_text en) (e_page en) \<in> seen_headers s1
         \<and> (normalized (e_text en) \<in> G \<longrightarrow> normalized (e_text en) \<in> seen_headers s1)"
    using i f(5) by blast
  have new: "normalized (strip t) \<in> G \<longrightarrow> normalized (strip t) \<in> seen_headers s1"
    using f(4) by blast
  have fresh: "(normalized (strip t), page) \<notin> (\<lambda>en. (normalized (e_text en), e_page en)) ` set (outline s)"
  proof
    assume "(normalized (strip t), page) \<in> (\<lambda>en. (normalized (e_text en), e_page en)) ` set (outline s)"
    then obtain en where en: "en \<in> set (outline s)" "normalized (e_text en) = normalized (strip t)"
      "e_page en = page" by auto
    then have "header_key (e_text en) (e_page en) = header_key (strip t) page"
      by (simp add: header_key_def)
    moreover from i en(1) have "header_key (e_text en) (e_page en) \<in> seen_headers s"
      by blast
    ultimately show False using f(1) by simp
  qed
  have gen: "\<forall>g \<in> G. length (filter (\<lambda>en. normalized (e_text en) = g)
                 (outline s @ [\<lparr>e_level = l, e_text = strip t, e_page = page\<rparr>])) \<le> 1"
  proof
    fix g assume g: "g \<in> G"
    show "length (filter (\<lambda>en. normalized (e_text en) = g)
                 (outline s @ [\<lparr>e_level = l, e_text = strip t, e_page = page\<rparr>])) \<le> 1"
    proof (cases "normalized (strip t) = g")
      case False
      with i g show ?thesis by auto
    next
      case same: True
      have "normalized (strip t) \<in> G" using g unfolding same .
      from f(2) [OF this] have "g \<notin> seen_headers s" unfolding same .
      with i g have "\<forall>en \<in> set (outline s). normalized (e_text en) \<noteq> g"
        by blast
      then have "filter (\<lambda>en. normalized (e_text en) = g) (outline s) = []"
        by (simp add: filter_empty_conv)
      then show ?thesis by simp
    qed
  qed
  have d: "distinct (map (\<lambda>en. (normalized (e_text en), e_page en)) (outline s))"
    using i by blast
  show ?thesis
    unfolding dedup_inv_def G_def [symmetric]
    using old new fresh gen d f(3,6)
    by (simp add: strip_idem)
qed

lemma append_header_dedup_inv:
  "dedup_inv s \<Longrightarrow> dedup_inv (append_header s l (strip t) page)"
  by (auto simp: append_header_def split: option.splits prod.splits bool.splits
      intro: dedup_inv_append dedup_inv_mono dest: should_include_header_False)

lemma dedup_inv_frame [simp]:
  "dedup_inv (s\<lparr>in_toc_section := b\<rparr>) = dedup_inv s"
  "dedup_inv (s\<lparr>content := c\<rparr>) = dedup_inv s"
  by (simp_all add: dedup_inv_def)

lemma step_dedup_inv: "dedup_inv s \<Longrightarrow> dedup_inv (step s ie)"
  by (simp add: step_def Let_def classify_and_collect_def append_header_dedup_inv
      split: option.splits)

lemma normalized_stripped: "strip t = t \<Longrightarrow> normalized t = collapse_ws (lower t)"
  by (simp add: normalized_def)

lemma repeated_overview_run:
  "fst (parse_pdf_data s repeated_overview) =
     Inr \<lparr>r_title = ''Report Title'',
          r_outline = [\<lparr>e_level = ''H1'', e_text = ''Overview'', e_page = 2\<rparr>]\<rparr>"
  by code_simp

text \<open>
  C6. In the outline of every result no two entries agree on both the whitespace-collapsed
  lowercased text and the page, and each of the three generic labels "overview",
  "introduction" and "summary" is the whitespace-collapsed lowercased text of at most one
  entry, whatever the pages.
\<close>

theorem outline_no_duplicates:
  assumes "fst (parse_pdf_data s0 els) = Inr r"
  shows "distinct (map (\<lambda>en. (collapse_ws (lower (e_text en)), e_page en)) (r_outline r))
         \<and> (\<forall>g \<in> {''overview'', ''introduction'', ''summary''}.
              length (filter (\<lambda>en. collapse_ws (lower (e_text en)) = g) (r_outline r)) \<le> 1)"
proof (cases "identify_title (prepared s0 els) els")
  case (Inl err)
  with assms show ?thesis by (simp add: parse_pdf_data_Inl)
next
  case (Inr t)
  let ?s = "with_title (prepared s0 els) t"
  let ?f = "foldl step ?s (enumerate 0 els)"
  have "dedup_inv ?s"
    by (simp add: dedup_inv_def with_title_def prepared_frame)
  then have inv: "dedup_inv ?f"
    by (rule foldl_invariant) (rule step_dedup_inv)
  have r: "r_outline r = outline ?f"
    using Inr assms by (auto simp: parse_pdf_data_Inr)
  have n: "normalized (e_text en) = collapse_ws (lower (e_text en))" if "en \<in> set (outline ?f)" for en
    using inv that unfolding dedup_inv_def by (auto intro: normalized_stripped)
  have m: "map (\<lambda>en. (collapse_ws (lower (e_text en)), e_page en)) (outline ?f)
         = map (\<lambda>en. (normalized (e_text en), e_page en)) (outline ?f)"
    using n by (simp cong: map_cong)
  have fl: "filter (\<lambda>en. collapse_ws (lower (e_text en)) = g) (outline ?f)
         = filter (\<lambda>en. normalized (e_text en) = g) (outline ?f)" for g
    using n by (simp cong: filter_cong)
  from inv show ?thesis
    unfolding r m fl dedup_inv_def by blast
qed

theorem outline_no_duplicates_witness:
  "fst (parse_pdf_data PDFTitleHeaderParser repeated_overview) =
     Inr \<lparr>r_title = ''Report Title'',
          r_outline = [\<lparr>e_level = ''H1'', e_text = ''Overview'', e_page = 2\<rparr>]\<rparr>
   \<and> distinct (map (\<lambda>en. (collapse_ws (lower (e_text en)), e_page en))
         [\<lparr>e_level = ''H1'', e_text = ''Overview'', e_page = 2\<rparr>])
   \<and> length (filter (\<lambda>en. collapse_ws (lower (e_text en)) = ''overview'')
         [\<lparr>e_level = ''H1'', e_text = ''Overview'', e_page = 2\<rparr>]) \<le> 1"
proof -
  note h = repeated_overview_run [of PDFTitleHeaderParser]
  note t = outline_no_duplicates [OF h]
  have a: "distinct (map (\<lambda>en. (collapse_ws (lower (e_text en)), e_page en))
         [\<lparr>e_level = ''H1'', e_text = ''Overview'', e_page = 2\<rparr>])"
    using t by simp
  have g: "''overview'' \<in> {''overview'', ''introduction'', ''summary''}"
    by (rule insertI1)
  have b: "length (filter (\<lambda>en. collapse_ws (lower (e_text en)) = ''overview'')
         [\<lparr>e_level = ''H1'', e_text = ''Overview'', e_page = 2\<rparr>]) \<le> 1"
    using bspec [OF conjunct2 [OF t] g] by (simp only: result.simps)
  from h a b show ?thesis by (intro conjI)
qed

subsection \<open>Table-of-contents headings\<close>

lemma ends_chr:
  "ends (chr c) (p, s) = (case s of [] \<Rightarrow> [] | x # xs \<Rightarrow> if x = c then [(Some x, xs)] else [])"
  by (simp add: chr_def split: list.splits)

lemma lit_Nil: "lit [] = Eps"
  by (simp add: lit_def)

lemma lit_Cons: "lit (c # w) = Cat (chr c) (lit w)"
  by (simp add: lit_def)

lemma ends_lit: "ends (lit w) (p, s) \<noteq> [] \<longleftrightarrow> is_prefix w s"
proof (induction w arbitrary: p s)
  case Nil
  show ?case by (simp add: lit_Nil)
next
  case (Cons c w)
  show ?case
  proof (cases s)
    case Nil
    then show ?thesis by (simp add: lit_Cons ends_chr)
  next
    case (Cons x xs)
    then show ?thesis using Cons.IH [of "Some x" xs]
      by (auto simp: lit_Cons ends_chr)
  qed
qed

lemma re_search_lit_positions:
  "list_ex (\<lambda>q. ends (lit w) q \<noteq> []) (positions p s) = contains w s"
  by (induction s arbitrary: p) (simp_all add: ends_lit)

lemma re_search_lit: "re_search (lit w) s = contains w s"
  by (simp add: re_search_def re_search_lit_positions)

lemma toc_header_substring:
  assumes "toc_patterns s = toc_patterns PDFTitleHeaderParser"
    and "contains ''contents'' (lower (strip (get_text e)))
         \<or> contains ''index'' (lower (strip (get_text e)))
         \<or> contains ''sommaire'' (lower (strip (get_text e)))
         \<or> list_ex (\<lambda>p. re_search p (lower (strip (get_text e)))) (toc_patterns PDFTitleHeaderParser)"
  shows "is_table_of_contents_header s e"
proof -
  have "list_ex (\<lambda>p. re_search p (lower (strip (get_text e)))) (toc_patterns PDFTitleHeaderParser)"
    using assms(2) by (auto simp: PDFTitleHeaderParser_def re_search_lit)
  then show ?thesis
    by (simp add: is_table_of_contents_header_def assms(1))
qed

lemma step_toc_header:
  assumes "is_table_of_contents_header s e" and "strip (get_text e) \<noteq> []"
    and "i \<notin> table_elements s" and "\<not> excluded e"
    and "\<not> is_title_fragment s (strip (get_text e)) (get_page e)"
  shows "in_toc_section (step s (i, e))" and "content (step s (i, e)) = content s"
  using assms by (simp_all add: step_def Let_def excluded_def append_header_frame)

lemma is_title_fragment_cong:
  "title s = title s' \<Longrightarrow> is_title_fragment s t p = is_title_fragment s' t p"
  by (simp add: is_title_fragment_def)

lemma pass_prefix_frame:
  "title (pass_prefix s els n) = title s"
  "table_elements (pass_prefix s els n) = table_elements s"
  "toc_patterns (pass_prefix s els n) = toc_patterns s"
  by (simp_all add: pass_prefix_def foldl_step_frame)

lemma pass_prefix_Suc:
  "i < length els \<Longrightarrow> pass_prefix s els (Suc i) = step (pass_prefix s els i) (i, els ! i)"
  by (simp add: pass_prefix_def take_Suc_conv_app_nth nth_enumerate_eq)

lemma pass_prefix_length:
  "identify_title (prepared s0 els) els = Inr t \<Longrightarrow>
   snd (parse_pdf_data s0 els) = pass_prefix (with_title (prepared s0 els) t) els (length els)"
  by (simp add: parse_pdf_data_Inr pass_prefix_def)

lemma toc_on_title_page_title:
  "identify_title (prepared PDFTitleHeaderParser toc_on_title_page) toc_on_title_page
     = Inr (Some (frag ''Big Title'' 1 24 True))"
  by code_simp

lemma toc_on_title_page_reach:
  "contains ''contents'' (lower (strip (get_text (toc_on_title_page ! 1))))"
  "strip (get_text (toc_on_title_page ! 1)) \<noteq> []"
  "1 \<notin> table_elements (prepared PDFTitleHeaderParser toc_on_title_page)"
  "\<not> excluded (toc_on_title_page ! 1)"
  "\<not> is_title_fragment (with_title (prepared PDFTitleHeaderParser toc_on_title_page)
         (Some (frag ''Big Title'' 1 24 True)))
       (strip (get_text (toc_on_title_page ! 1))) (get_page (toc_on_title_page ! 1))"
  by code_simp+

text \<open>
  C10. The claim is that every fragment whose trimmed lowercased text contains a
  table-of-contents pattern anywhere makes the assembly pass enter the table-of-contents
  state at that fragment and keeps the fragment out of the body content. The detection is
  by substring: a literal pattern is found wherever it occurs in the text. But the pass
  tests for a table-of-contents heading only after three other tests, each of which skips
  the fragment with no change of state: the fragment has an empty trimmed text or is
  marked as table content, it is matched by one of the three filters, or it has the text
  and the page of the title. For a fragment that passes these three tests the claim
  holds: after its iteration the pass is in the table-of-contents state and the body
  content is what it was before. In \<open>index_title\<close> the fragment "Subject Index" contains
  "index" and is the title: the pass skips it and ends outside the table-of-contents
  state.
\<close>

theorem toc_heading_enters_toc:
  assumes "identify_title (prepared s0 els) els = Inr t"
    and "i < length els"
    and "contains ''contents'' (lower (strip (get_text (els ! i))))
         \<or> contains ''index'' (lower (strip (get_text (els ! i))))
         \<or> contains ''sommaire'' (lower (strip (get_text (els ! i))))
         \<or> list_ex (\<lambda>p. re_search p (lower (strip (get_text (els ! i)))))
              (toc_patterns PDFTitleHeaderParser)"
    and "strip (get_text (els ! i)) \<noteq> []"
    and "i \<notin> table_elements (prepared s0 els)"
    and "\<not> excluded (els ! i)"
    and "\<not> is_title_fragment (with_title (prepared s0 els) t)
             (strip (get_text (els ! i))) (get_page (els ! i))"
  shows "in_toc_section (pass_prefix (with_title (prepared s0 els) t) els (Suc i))
         \<and> content (pass_prefix (with_title (prepared s0 els) t) els (Suc i))
             = content (pass_prefix (with_title (prepared s0 els) t) els i)"
proof -
  let ?S = "with_title (prepared s0 els) t"
  let ?s = "pass_prefix ?S els i"
  have p: "toc_patterns ?s = toc_patterns PDFTitleHeaderParser"
    by (simp add: pass_prefix_frame with_title_def prepared_frame)
  have h: "is_table_of_contents_header ?s (els ! i)"
    using p assms(3) by (rule toc_header_substring)
  have te: "i \<notin> table_elements ?s"
    using assms(5) by (simp add: pass_prefix_frame with_title_def)
  have tt: "title ?s = title ?S"
    by (simp add: pass_prefix_frame)
  have tf: "\<not> is_title_fragment ?s (strip (get_text (els ! i))) (get_page (els ! i))"
    unfolding is_title_fragment_cong [OF tt] by (rule assms(7))
  from step_toc_header [OF h assms(4) te assms(6) tf] show ?thesis
    by (simp add: pass_prefix_Suc assms(2))
qed

theorem toc_heading_enters_toc_witness:
  "in_toc_section (pass_prefix (with_title (prepared PDFTitleHeaderParser toc_on_title_page)
       (Some (frag ''Big Title'' 1 24 True))) toc_on_title_page 2)
   \<and> content (pass_prefix (with_title (prepared PDFTitleHeaderParser toc_on_title_page)
       (Some (frag ''Big Title'' 1 24 True))) toc_on_title_page 2)
     = content (pass_prefix (with_title (prepared PDFTitleHeaderParser toc_on_title_page)
       (Some (frag ''Big Title'' 1 24 True))) toc_on_title_page 1)"
proof -
  have l: "(1::nat) < length toc_on_title_page"
    by (simp add: toc_on_title_page_def)
  have c: "contains ''contents'' (lower (strip (get_text (toc_on_title_page ! 1))))
         \<or> contains ''index'' (lower (strip (get_text (toc_on_title_page ! 1))))
         \<or> contains ''sommaire'' (lower (strip (get_text (toc_on_title_page ! 1))))
         \<or> list_ex (\<lambda>p. re_search p (lower (strip (get_text (toc_on_title_page ! 1)))))
              (toc_patterns PDFTitleHeaderParser)"
    using toc_on_title_page_reach(1) by (rule disjI1)
  from toc_heading_enters_toc [OF toc_on_title_page_title l c toc_on_title_page_reach(2-5)]
  show ?thesis by (simp only: numeral_2_eq_2 One_nat_def)
qed

theorem title_toc_heading_counterexample:
  "contains ''index'' (lower (strip (get_text (index_title ! 0))))
   \<and> is_table_of_contents_header (snd (parse_pdf_data PDFTitleHeaderParser index_title)) (index_title ! 0)
   \<and> \<not> in_toc_section (snd (parse_pdf_data PDFTitleHeaderParser index_title))"
proof -
  have "contains ''index'' (lower (strip (get_text (index_title ! 0))))"
    by code_simp
  then show ?thesis
    using index_title_run [of PDFTitleHeaderParser] by (simp add: index_title_def)
qed

end
